theory Spec2Isabelle
  imports
    Main
    "HOL-Library.AList"
    "HOL-Library.Char_ord"
    "HOL-Library.List_Lexorder"
    "HOL-Library.Sublist"
begin

section \<open>The Kconfig to CMake translator (tools/kconfig_to_cmake.py)\<close>

text \<open>
  A shallow embedding of \<^verbatim>\<open>tools/kconfig_to_cmake.py\<close>. Python identifiers that start
  with an underscore lose it (\<^verbatim>\<open>_cmake_escape\<close> is \<open>cmake_escape\<close>,
  \<^verbatim>\<open>_write_minimal_output\<close> is \<open>write_minimal_output\<close>, \<^verbatim>\<open>_generate_cache\<close> is
  \<open>generate_cache\<close>). Python strings are \<open>string\<close>; the three characters that the
  script writes with a backslash escape get a name each.
\<close>

subsection \<open>Characters and strings\<close>

definition dquote :: char where
  "dquote = CHR 0x22"

definition backslash :: char where
  "backslash = CHR 0x5C"

definition newline :: char where
  "newline = CHR 0x0A"

text \<open>
  \<^verbatim>\<open>str.replace(old, new)\<close> for a one-character \<open>old\<close>: every occurrence, left to
  right, is replaced.
\<close>

definition str_replace :: "char \<Rightarrow> string \<Rightarrow> string \<Rightarrow> string" where
  "str_replace old new s = concat (map (\<lambda>c. if c = old then new else [c]) s)"

text \<open>\<^verbatim>\<open>sep.join(xs)\<close>.\<close>

fun str_join :: "string \<Rightarrow> string list \<Rightarrow> string" where
  "str_join sep [] = []"
| "str_join sep [x] = x"
| "str_join sep (x # y # zs) = x @ sep @ str_join sep (y # zs)"

text \<open>
  \<^verbatim>\<open>def _cmake_escape(value): return value.replace("\\", "\\\\").replace("\"", "\\\"")\<close>:
  two passes, backslashes first.
\<close>

definition cmake_escape :: "string \<Rightarrow> string" where
  "cmake_escape v =
     str_replace dquote [backslash, dquote]
       (str_replace backslash [backslash, backslash] v)"

subsection \<open>Paths, the file system and the error stream\<close>

text \<open>
  A \<^verbatim>\<open>pathlib.Path\<close> (POSIX flavour) is its root (\<open>''/''\<close> or empty) and its
  components. \<open>parent\<close> drops the last component and is the path itself when there is
  none; \<open>path_str\<close> is \<^verbatim>\<open>str(path)\<close>.
\<close>

record path =
  root :: string
  parts :: "string list"

definition parent :: "path \<Rightarrow> path" where
  "parent p = p\<lparr>parts := butlast (parts p)\<rparr>"

definition path_str :: "path \<Rightarrow> string" where
  "path_str p =
     (if root p = [] \<and> parts p = [] then ''.''
      else root p @ str_join ''/'' (parts p))"

text \<open>
  The part of the world the script touches: the regular files with their contents, the
  directories, and what has been written to \<^verbatim>\<open>sys.stderr\<close>. File system calls are
  modelled as succeeding (no permission or disk errors).
\<close>

record world =
  files :: "path \<rightharpoonup> string"
  dirs :: "path set"
  stderr :: string

definition is_file :: "path \<Rightarrow> world \<Rightarrow> bool" where
  "is_file p w = (files w p \<noteq> None)"

definition stderr_write :: "string \<Rightarrow> world \<Rightarrow> world" where
  "stderr_write s w = w\<lparr>stderr := stderr w @ s\<rparr>"

text \<open>\<^verbatim>\<open>p.mkdir(parents=True, exist_ok=True)\<close>: \<open>p\<close> and all its ancestors are directories
  afterwards.\<close>

definition mkdir_parents :: "path \<Rightarrow> world \<Rightarrow> world" where
  "mkdir_parents p w =
     w\<lparr>dirs := dirs w \<union> (\<lambda>q. p\<lparr>parts := q\<rparr>) ` set (prefixes (parts p))\<rparr>"

text \<open>\<^verbatim>\<open>p.write_text(s)\<close>: the file is created or overwritten.\<close>

definition write_text :: "path \<Rightarrow> string \<Rightarrow> world \<Rightarrow> world" where
  "write_text p s w = w\<lparr>files := (files w)(p \<mapsto> s)\<rparr>"

definition placeholder_text :: string where
  "placeholder_text =
     ''# Auto-generated placeholder. Run menuconfig to populate symbols.'' @ [newline] @
     ''set(AEROSYNC_KCONFIG_DEFINES)'' @ [newline]"

definition write_minimal_output :: "path \<Rightarrow> world \<Rightarrow> world" where
  "write_minimal_output output_path w =
     write_text output_path placeholder_text (mkdir_parents (parent output_path) w)"

subsection \<open>The kconfiglib interface\<close>

text \<open>
  kconfiglib is an external library. What the script reads of a symbol: its name, its
  type (one of kconfiglib's type constants; \<^verbatim>\<open>INT\<close> is \<open>INT_TYPE\<close> here),
  \<^verbatim>\<open>tri_value\<close> (0, 1 or 2 for n, m, y) and \<^verbatim>\<open>str_value\<close> (the script also tests it
  against \<^verbatim>\<open>None\<close>).
\<close>

datatype sym_type = UNKNOWN | BOOL | TRISTATE | STRING | INT_TYPE | HEX

record symbol =
  name :: string
  stype :: sym_type
  tri_value :: int
  str_value :: "string option"

text \<open>
  The library itself is a parameter: the constructor \<^verbatim>\<open>Kconfig(path)\<close>, the method
  \<^verbatim>\<open>load_config(path)\<close> (it mutates the object; here it returns the new one) and the
  attribute \<^verbatim>\<open>unique_defined_syms\<close>. The result of \<^verbatim>\<open>import kconfiglib\<close> is
  \<open>Some\<close> of this record, or \<open>None\<close> for \<^verbatim>\<open>ModuleNotFoundError\<close>.
\<close>

record 'k kconfiglib =
  Kconfig :: "string \<Rightarrow> 'k"
  load_config :: "'k \<Rightarrow> string \<Rightarrow> 'k"
  unique_defined_syms :: "'k \<Rightarrow> symbol list"

subsection \<open>The translation pass\<close>

text \<open>
  The two accumulators of \<^verbatim>\<open>_generate_cache\<close>: the dictionary \<^verbatim>\<open>defines\<close> (here
  \<open>defines_dict\<close>; insertion ordered, a key keeps its place when it is assigned
  again: \<open>AList.update\<close>) and the list \<^verbatim>\<open>cmake_sets\<close>.
\<close>

record gen_state =
  defines_dict :: "(string \<times> string) list"
  cmake_sets :: "string list"

definition init_state :: gen_state where
  "init_state = \<lparr>defines_dict = [], cmake_sets = []\<rparr>"

definition set_define :: "string \<Rightarrow> string \<Rightarrow> gen_state \<Rightarrow> gen_state" where
  "set_define nm v st = st\<lparr>defines_dict := AList.update nm v (defines_dict st)\<rparr>"

definition emit_symbol :: "string \<Rightarrow> string \<Rightarrow> bool \<Rightarrow> gen_state \<Rightarrow> gen_state" where
  "emit_symbol nm v plain st =
     set_define (''CONFIG_'' @ nm) v (if plain then set_define nm v st else st)"

definition append_set :: "string \<Rightarrow> gen_state \<Rightarrow> gen_state" where
  "append_set line st = st\<lparr>cmake_sets := cmake_sets st @ [line]\<rparr>"

text \<open>The f-string \<^verbatim>\<open>f"set(CONFIG_{name} \"{value}\")"\<close>.\<close>

definition set_line :: "string \<Rightarrow> string \<Rightarrow> string" where
  "set_line nm v = ''set(CONFIG_'' @ nm @ '' '' @ [dquote] @ v @ [dquote] @ '')''"

text \<open>The body of the loop \<^verbatim>\<open>for sym in kconf.unique_defined_syms\<close>, one symbol.\<close>

definition process_sym :: "symbol \<Rightarrow> gen_state \<Rightarrow> gen_state" where
  "process_sym s st =
     (if name s = [] then st
      else if stype s = BOOL \<or> stype s = TRISTATE then
        (let tri = tri_value s in
         if tri = 0 then st
         else if tri = 2 then
           append_set (set_line (name s) ''y'') (emit_symbol (name s) ''1'' True st)
         else if tri = 1 then
           append_set (set_line (name s) ''m'')
             (emit_symbol (name s @ ''_MODULE'') ''1'' True
               (emit_symbol (name s) ''m'' True st))
         else st)
      else if stype s = INT_TYPE \<or> stype s = HEX \<or> stype s = STRING then
        (case str_value s of
           None \<Rightarrow> st
         | Some v \<Rightarrow>
             if v = [] then st
             else
               append_set (set_line (name s) (cmake_escape v))
                 (if stype s = STRING
                  then emit_symbol (name s) ([dquote] @ v @ [dquote]) True st
                  else emit_symbol (name s) v True st))
      else st)"

fun process_syms :: "symbol list \<Rightarrow> gen_state \<Rightarrow> gen_state" where
  "process_syms [] st = st"
| "process_syms (s # syms) st = process_syms syms (process_sym s st)"

text \<open>
  The f-string \<^verbatim>\<open>f"    \"{_cmake_escape(name)}={_cmake_escape(defines[name])}\""\<close> and
  the loop \<^verbatim>\<open>for name in sorted(defines)\<close> around it. The names come from the
  dictionary, so \<^verbatim>\<open>defines[name]\<close> never raises (lemma \<open>defines_lookup\<close> below).
\<close>

definition define_line :: "string \<Rightarrow> string \<Rightarrow> string" where
  "define_line nm v = ''    '' @ [dquote] @ cmake_escape nm @ ''='' @ cmake_escape v @ [dquote]"

definition sorted_names :: "(string \<times> string) list \<Rightarrow> string list" where
  "sorted_names d = sort (map fst d)"

definition define_lines :: "(string \<times> string) list \<Rightarrow> string list" where
  "define_lines d = map (\<lambda>nm. define_line nm (the (map_of d nm))) (sorted_names d)"

definition output_lines :: "gen_state \<Rightarrow> string list" where
  "output_lines st =
     [''# This file is auto-generated. Do not edit.'', ''set(AEROSYNC_KCONFIG_DEFINES'']
     @ define_lines (defines_dict st)
     @ ['')'' @ [newline]]
     @ cmake_sets st
     @ [[newline]]"

definition document :: "symbol list \<Rightarrow> string" where
  "document syms = str_join [newline] (output_lines (process_syms syms init_state))"

definition generate_cache ::
  "'k kconfiglib option \<Rightarrow> path \<Rightarrow> path \<Rightarrow> path \<Rightarrow> world \<Rightarrow> int \<times> world" where
  "generate_cache import_result kconfig_path config_path output_path w =
     (case import_result of
        None \<Rightarrow> (1, stderr_write (''kconfiglib is not installed.'' @ [newline]) w)
      | Some kconfiglib \<Rightarrow>
          if \<not> is_file kconfig_path w then
            (0, write_minimal_output output_path
                  (stderr_write
                     (''warning: Kconfig file '' @ [CHR 0x27] @ path_str kconfig_path @ [CHR 0x27]
                        @ '' not found; emitting empty cache.'' @ [newline]) w))
          else
            (let kconf0 = Kconfig kconfiglib (path_str kconfig_path);
                 (kconf, w1) =
                   (if is_file config_path w
                    then (load_config kconfiglib kconf0 (path_str config_path), w)
                    else (kconf0,
                          stderr_write
                            (''warning: config file '' @ [CHR 0x27] @ path_str config_path
                               @ [CHR 0x27] @ '' not found; continuing with defaults.''
                               @ [newline]) w))
             in (0, write_text output_path
                      (document (unique_defined_syms kconfiglib kconf))
                      (mkdir_parents (parent output_path) w1))))"

subsection \<open>Views of the result\<close>

text \<open>
  The dictionary, the aggregated collection (the lines between
  \<^verbatim>\<open>set(AEROSYNC_KCONFIG_DEFINES\<close> and the closing parenthesis) and the
  assignment-statement sequence that \<^verbatim>\<open>_generate_cache\<close> builds for a list of symbols;
  \<open>keys_written s\<close> are the dictionary keys that the loop body assigns for the symbol
  \<open>s\<close>. \<open>loaded_kconf\<close> is the \<^verbatim>\<open>kconf\<close> object the loop iterates over.
\<close>

definition defines_of :: "symbol list \<Rightarrow> (string \<times> string) list" where
  "defines_of syms = defines_dict (process_syms syms init_state)"

definition aggregated :: "symbol list \<Rightarrow> string list" where
  "aggregated syms = define_lines (defines_of syms)"

definition assignments :: "symbol list \<Rightarrow> string list" where
  "assignments syms = cmake_sets (process_syms syms init_state)"

definition keys_written :: "symbol \<Rightarrow> string list" where
  "keys_written s = map fst (defines_dict (process_sym s init_state))"

definition loaded_kconf :: "'k kconfiglib \<Rightarrow> path \<Rightarrow> path \<Rightarrow> world \<Rightarrow> 'k" where
  "loaded_kconf kconfiglib kconfig_path config_path w =
     (if is_file config_path w
      then load_config kconfiglib (Kconfig kconfiglib (path_str kconfig_path)) (path_str config_path)
      else Kconfig kconfiglib (path_str kconfig_path))"

subsection \<open>The reader of quoted literals\<close>

text \<open>
  The script only writes quoted literals; the round-trip properties need the reader on the
  other side. \<open>escape_char\<close> is the escaping of one character as the specification words
  it (a backslash becomes two, a double quote becomes backslash and double quote).
  \<open>read_quoted\<close> reads the body of a quoted literal, starting after the opening
  quote, up to the first double quote that is not escaped, and returns the value and the
  rest of the line; it knows the two escape sequences \<^verbatim>\<open>\\\<close> and \<^verbatim>\<open>\"\<close>, and fails on
  any other use of the backslash and on a literal that is not closed.
\<close>

definition escape_char :: "char \<Rightarrow> string" where
  "escape_char c =
     (if c = backslash then [backslash, backslash]
      else if c = dquote then [backslash, dquote]
      else [c])"

fun read_quoted :: "string \<Rightarrow> (string \<times> string) option" where
  "read_quoted [] = None"
| "read_quoted (c # cs) =
     (if c = dquote then Some ([], cs)
      else if c = backslash then
        (case cs of
           [] \<Rightarrow> None
         | d # ds \<Rightarrow>
             if d = backslash \<or> d = dquote
             then map_option (\<lambda>(v, r). (d # v, r)) (read_quoted ds)
             else None)
      else map_option (\<lambda>(v, r). (c # v, r)) (read_quoted cs))"

text \<open>
  The literal of an assignment statement \<^verbatim>\<open>set(CONFIG_<name> "...")\<close> starts after
  \<^verbatim>\<open>set(CONFIG_<name>\<close>, a space and the opening quote; the literal of a line of the
  aggregated collection starts after four spaces and the opening quote.
\<close>

definition set_line_literal :: "string \<Rightarrow> string \<Rightarrow> (string \<times> string) option" where
  "set_line_literal nm line = read_quoted (drop (length (''set(CONFIG_'' @ nm @ '' '') + 1) line)"

definition define_line_literal :: "string \<Rightarrow> (string \<times> string) option" where
  "define_line_literal line = read_quoted (drop 5 line)"

subsection \<open>Example inputs\<close>

text \<open>Concrete paths, worlds, a stub of the library and symbols, for the closed theorems.\<close>

definition example_kconfig_path :: path where
  "example_kconfig_path = \<lparr>root = [], parts = [''Kconfig'']\<rparr>"

definition example_config_path :: path where
  "example_config_path = \<lparr>root = [], parts = [''.config'']\<rparr>"

definition example_output_path :: path where
  "example_output_path = \<lparr>root = [], parts = [''build'', ''kconfig_cache.cmake'']\<rparr>"

definition empty_world :: world where
  "empty_world = \<lparr>files = Map.empty, dirs = {}, stderr = []\<rparr>"

definition schema_world :: world where
  "schema_world = \<lparr>files = [example_kconfig_path \<mapsto> ''mainmenu''], dirs = {}, stderr = []\<rparr>"

definition example_kconfiglib :: "symbol list \<Rightarrow> (symbol list) kconfiglib" where
  "example_kconfiglib syms =
     \<lparr>Kconfig = (\<lambda>p. syms), load_config = (\<lambda>k p. k), unique_defined_syms = (\<lambda>k. k)\<rparr>"

definition sym_ZED :: symbol where
  "sym_ZED = \<lparr>name = ''ZED'', stype = BOOL, tri_value = 2, str_value = Some ''y''\<rparr>"

definition sym_ALPHA :: symbol where
  "sym_ALPHA = \<lparr>name = ''ALPHA'', stype = INT_TYPE, tri_value = 0, str_value = Some ''7''\<rparr>"

definition sym_OFF :: symbol where
  "sym_OFF = \<lparr>name = ''OFF'', stype = TRISTATE, tri_value = 0, str_value = Some ''n''\<rparr>"

definition sym_FOO :: symbol where
  "sym_FOO = \<lparr>name = ''FOO'', stype = BOOL, tri_value = 2, str_value = Some ''y''\<rparr>"

definition sym_CONFIG_FOO :: symbol where
  "sym_CONFIG_FOO = \<lparr>name = ''CONFIG_FOO'', stype = INT_TYPE, tri_value = 0, str_value = Some ''5''\<rparr>"

definition sym_BAR :: symbol where
  "sym_BAR = \<lparr>name = ''BAR'', stype = TRISTATE, tri_value = 1, str_value = Some ''m''\<rparr>"

definition quoted_value :: string where
  "quoted_value = ''it'' @ [CHR 0x27] @ ''s '' @ [dquote] @ ''quoted'' @ [dquote]"

definition sym_NAME :: symbol where
  "sym_NAME = \<lparr>name = ''NAME'', stype = STRING, tri_value = 0, str_value = Some quoted_value\<rparr>"

definition sym_PATH :: symbol where
  "sym_PATH = \<lparr>name = ''PATH'', stype = STRING, tri_value = 0,
      str_value = Some (''C:'' @ [backslash] @ ''tmp '' @ [dquote] @ ''x'' @ [backslash, dquote])\<rparr>"

definition sym_EMPTY :: symbol where
  "sym_EMPTY = \<lparr>name = ''EMPTY'', stype = HEX, tri_value = 0, str_value = Some []\<rparr>"

definition sym_MODULES :: symbol where
  "sym_MODULES = \<lparr>name = ''MODULES'', stype = BOOL, tri_value = 2, str_value = Some ''y''\<rparr>"

definition sym_X :: symbol where
  "sym_X = \<lparr>name = ''X'', stype = TRISTATE, tri_value = 1, str_value = Some ''m''\<rparr>"

definition sym_X_MODULE :: symbol where
  "sym_X_MODULE = \<lparr>name = ''X_MODULE'', stype = BOOL, tri_value = 0, str_value = Some ''n''\<rparr>"

section \<open>Properties\<close>

subsection \<open>Escaping\<close>

lemma dquote_neq_backslash [simp]: "dquote \<noteq> backslash" "backslash \<noteq> dquote"
  by (simp_all add: dquote_def backslash_def)

lemma str_replace_Nil [simp]: "str_replace old new [] = []"
  unfolding str_replace_def by simp

lemma str_replace_Cons:
  "str_replace old new (c # s) = (if c = old then new else [c]) @ str_replace old new s"
  by (simp add: str_replace_def)

lemma str_replace_append:
  "str_replace old new (a @ b) = str_replace old new a @ str_replace old new b"
  by (simp add: str_replace_def)

lemma cmake_escape_Nil [simp]: "cmake_escape [] = []"
  by (simp add: cmake_escape_def)

lemma cmake_escape_Cons: "cmake_escape (c # s) = escape_char c @ cmake_escape s"
  by (simp add: cmake_escape_def escape_char_def str_replace_Cons str_replace_append)

lemma cmake_escape_append: "cmake_escape (a @ b) = cmake_escape a @ cmake_escape b"
  by (simp add: cmake_escape_def str_replace_append)

lemma cmake_escape_concat: "cmake_escape v = concat (map escape_char v)"
  by (induction v) (simp_all add: cmake_escape_Cons)

lemma read_quoted_escape:
  "read_quoted (cmake_escape v @ dquote # rest) = Some (v, rest)"
  by (induction v) (simp_all add: cmake_escape_Cons escape_char_def)

lemma set_line_literal_escape:
  "set_line_literal nm (set_line nm (cmake_escape v)) = Some (v, '')'')"
  by (simp add: set_line_literal_def set_line_def read_quoted_escape)

lemma define_line_literal_escape:
  "define_line_literal (define_line nm w) = Some (nm @ ''='' @ w, [])"
proof -
  have "cmake_escape nm @ ''='' @ cmake_escape w = cmake_escape (nm @ ''='' @ w)"
    by (simp add: cmake_escape_append cmake_escape_Cons escape_char_def dquote_def backslash_def)
  then have "define_line nm w = ''    '' @ [dquote] @ cmake_escape (nm @ ''='' @ w) @ [dquote]"
    by (simp add: define_line_def)
  then show ?thesis
    using read_quoted_escape [of "nm @ ''='' @ w" "[]"]
    by (simp add: define_line_literal_def)
qed

subsection \<open>One symbol, a list of symbols\<close>

lemma defines_append_set [simp]: "defines_dict (append_set l st) = defines_dict st"
  by (simp add: append_set_def)

lemma cmake_sets_append_set [simp]: "cmake_sets (append_set l st) = cmake_sets st @ [l]"
  by (simp add: append_set_def)

lemma cmake_sets_emit_symbol [simp]: "cmake_sets (emit_symbol nm v plain st) = cmake_sets st"
  by (simp add: emit_symbol_def set_define_def)

lemma map_of_emit_symbol:
  "map_of (defines_dict (emit_symbol nm v True st)) =
     (map_of (defines_dict st))(nm \<mapsto> v, ''CONFIG_'' @ nm \<mapsto> v)"
  by (simp add: emit_symbol_def set_define_def update_conv' del: AList.update.simps)

lemma keys_emit_symbol:
  "fst ` set (defines_dict (emit_symbol nm v True st)) =
     {nm, ''CONFIG_'' @ nm} \<union> fst ` set (defines_dict st)"
  by (simp add: emit_symbol_def set_define_def dom_update insert_commute del: AList.update.simps)

lemma distinct_emit_symbol:
  "distinct (map fst (defines_dict st)) \<Longrightarrow>
     distinct (map fst (defines_dict (emit_symbol nm v plain st)))"
  by (simp add: emit_symbol_def set_define_def distinct_update del: AList.update.simps)

lemma process_sym_cases [case_names skip yes module val]:
  obtains
    (skip) "\<And>st. process_sym s st = st"
  | (yes) "name s \<noteq> []" "stype s = BOOL \<or> stype s = TRISTATE" "tri_value s = 2"
      "\<And>st. process_sym s st =
         append_set (set_line (name s) ''y'') (emit_symbol (name s) ''1'' True st)"
  | (module) "name s \<noteq> []" "stype s = BOOL \<or> stype s = TRISTATE" "tri_value s = 1"
      "\<And>st. process_sym s st =
         append_set (set_line (name s) ''m'')
           (emit_symbol (name s @ ''_MODULE'') ''1'' True (emit_symbol (name s) ''m'' True st))"
  | (val) v where "name s \<noteq> []" "stype s = INT_TYPE \<or> stype s = HEX \<or> stype s = STRING"
      "str_value s = Some v" "v \<noteq> []"
      "\<And>st. process_sym s st =
         append_set (set_line (name s) (cmake_escape v))
           (emit_symbol (name s) (if stype s = STRING then [dquote] @ v @ [dquote] else v) True st)"
proof (cases "name s = []")
  case True
  then show ?thesis by (intro skip) (simp add: process_sym_def)
next
  case nm: False
  show ?thesis
  proof (cases "stype s = BOOL \<or> stype s = TRISTATE")
    case bt: True
    consider "tri_value s = 2" | "tri_value s = 1" | "tri_value s \<noteq> 2" "tri_value s \<noteq> 1"
      by blast
    then show ?thesis
    proof cases
      case 1
      with nm bt show ?thesis by (intro yes) (simp_all add: process_sym_def)
    next
      case 2
      with nm bt show ?thesis by (intro module) (simp_all add: process_sym_def)
    next
      case 3
      with nm bt show ?thesis by (intro skip) (simp add: process_sym_def Let_def)
    qed
  next
    case nbt: False
    show ?thesis
    proof (cases "stype s = INT_TYPE \<or> stype s = HEX \<or> stype s = STRING")
      case ihs: True
      show ?thesis
      proof (cases "str_value s")
        case None
        with nm nbt ihs show ?thesis by (intro skip) (simp add: process_sym_def)
      next
        case (Some v)
        show ?thesis
        proof (cases "v = []")
          case True
          with nm nbt ihs Some show ?thesis by (intro skip) (simp add: process_sym_def)
        next
          case False
          with nm nbt ihs Some show ?thesis
            by (intro val [of v]) (simp_all add: process_sym_def)
        qed
      qed
    next
      case False
      with nm nbt show ?thesis by (intro skip) (simp add: process_sym_def)
    qed
  qed
qed

lemma process_syms_append:
  "process_syms (xs @ ys) st = process_syms ys (process_syms xs st)"
  by (induction xs arbitrary: st) simp_all

lemma cmake_sets_process_sym:
  "cmake_sets (process_sym s st) = cmake_sets st @ cmake_sets (process_sym s init_state)"
  by (cases s rule: process_sym_cases) (simp_all add: init_state_def)

lemma cmake_sets_process_syms:
  "cmake_sets (process_syms syms st) =
     cmake_sets st @ concat (map (\<lambda>s. cmake_sets (process_sym s init_state)) syms)"
proof (induction syms arbitrary: st)
  case Nil
  show ?case by simp
next
  case (Cons s syms)
  show ?case
    by (simp add: Cons.IH cmake_sets_process_sym [of s st])
qed

lemma map_of_process_sym_other:
  assumes "k \<notin> set (keys_written s)"
  shows "map_of (defines_dict (process_sym s st)) k = map_of (defines_dict st) k"
proof -
  from assms have k: "k \<notin> fst ` set (defines_dict (process_sym s init_state))"
    by (simp add: keys_written_def)
  show ?thesis
  proof (cases s rule: process_sym_cases)
    case skip
    then show ?thesis by simp
  next
    case yes
    with k show ?thesis by (simp add: keys_emit_symbol map_of_emit_symbol)
  next
    case module
    with k show ?thesis by (simp add: keys_emit_symbol map_of_emit_symbol)
  next
    case (val v)
    with k show ?thesis by (simp add: keys_emit_symbol map_of_emit_symbol)
  qed
qed

lemma map_of_process_syms_other:
  "\<forall>s\<in>set syms. k \<notin> set (keys_written s) \<Longrightarrow>
     map_of (defines_dict (process_syms syms st)) k = map_of (defines_dict st) k"
  by (induction syms arbitrary: st) (simp_all add: map_of_process_sym_other)

lemma distinct_process_sym:
  "distinct (map fst (defines_dict st)) \<Longrightarrow>
     distinct (map fst (defines_dict (process_sym s st)))"
  by (cases s rule: process_sym_cases) (simp_all add: distinct_emit_symbol)

lemma distinct_process_syms:
  "distinct (map fst (defines_dict st)) \<Longrightarrow>
     distinct (map fst (defines_dict (process_syms syms st)))"
  by (induction syms arbitrary: st) (simp_all add: distinct_process_sym)

lemma defines_lookup:
  "nm \<in> set (sorted_names d) \<Longrightarrow> \<exists>v. map_of d nm = Some v"
  by (simp add: sorted_names_def) (metis map_of_eq_None_iff not_None_eq)

lemma define_line_mem:
  "map_of d k = Some v \<Longrightarrow> define_line k v \<in> set (define_lines d)"
proof -
  assume a: "map_of d k = Some v"
  then have "k \<in> set (sorted_names d)"
    by (auto simp add: sorted_names_def dest: map_of_SomeD intro: rev_image_eqI)
  then have "(\<lambda>nm. define_line nm (the (map_of d nm))) k \<in> set (define_lines d)"
    unfolding define_lines_def set_map by (rule imageI)
  with a show ?thesis by simp
qed

lemma sorted_names_strict:
  "distinct (map fst d) \<Longrightarrow> sorted_wrt (<) (sorted_names d)"
  by (simp add: sorted_names_def strict_sorted_iff)

lemma keys_process_sym:
  "fst ` set (defines_dict (process_sym s st)) =
     fst ` set (defines_dict st) \<union> set (keys_written s)"
  unfolding keys_written_def set_map
  by (cases s rule: process_sym_cases) (auto simp add: keys_emit_symbol init_state_def)

lemma keys_process_syms:
  "fst ` set (defines_dict (process_syms syms st)) =
     fst ` set (defines_dict st) \<union> (\<Union>s\<in>set syms. set (keys_written s))"
  by (induction syms arbitrary: st) (auto simp add: keys_process_sym)

lemma keys_defines_of:
  "fst ` set (defines_of syms) = (\<Union>s\<in>set syms. set (keys_written s))"
  by (simp add: defines_of_def keys_process_syms init_state_def)

lemma distinct_defines_of: "distinct (map fst (defines_of syms))"
  by (simp add: defines_of_def distinct_process_syms init_state_def)

lemma sorted_names_keys:
  "distinct (map fst d) \<Longrightarrow> sorted_names d = sorted_list_of_set (fst ` set d)"
  by (simp add: sorted_names_def sorted_list_of_set_sort_remdups distinct_remdups_id flip: set_map)

lemma set_define_lines:
  "set (define_lines d) = (\<lambda>nm. define_line nm (the (map_of d nm))) ` fst ` set d"
  by (simp add: define_lines_def sorted_names_def)

lemma assignments_append: "assignments (xs @ ys) = assignments xs @ assignments ys"
  by (simp add: assignments_def cmake_sets_process_syms init_state_def)

lemma assignments_concat: "assignments syms = concat (map (\<lambda>s. assignments [s]) syms)"
  by (simp add: assignments_def cmake_sets_process_syms init_state_def)

lemma assignments_single:
  "assignments [s] = [] \<or> (\<exists>v. assignments [s] = [set_line (name s) v])"
  by (cases s rule: process_sym_cases) (auto simp add: assignments_def init_state_def)

lemma assignments_mid:
  "set (assignments [s]) \<subseteq> set (assignments (xs @ s # ys))"
  using assignments_append [of xs "s # ys"] assignments_append [of "[s]" ys] by auto

lemma process_syms_skip:
  assumes "\<And>st. process_sym s st = st"
  shows "process_syms (xs @ s # ys) st = process_syms (xs @ ys) st"
  by (simp add: process_syms_append assms)

lemma module_neq_config_raw:
  "nm @ ''_MODULE'' \<noteq> ''CONFIG_'' @ nm" "''CONFIG_'' @ nm \<noteq> nm @ ''_MODULE''"
proof -
  show "nm @ ''_MODULE'' \<noteq> ''CONFIG_'' @ nm"
  proof
    assume "nm @ ''_MODULE'' = ''CONFIG_'' @ nm"
    then have "count_list (nm @ ''_MODULE'') CHR ''M'' = count_list (''CONFIG_'' @ nm) CHR ''M''"
      by (rule arg_cong)
    then show False by simp
  qed
  then show "''CONFIG_'' @ nm \<noteq> nm @ ''_MODULE''" by (rule not_sym)
qed

lemmas key_neq = module_neq_config_raw [simplified]

lemma map_of_defines_of_mid:
  assumes "\<forall>t\<in>set ys. k \<notin> set (keys_written t)"
  shows "map_of (defines_of (xs @ s # ys)) k =
     map_of (defines_dict (process_sym s (process_syms xs init_state))) k"
  using assms by (simp add: defines_of_def process_syms_append map_of_process_syms_other)

lemma map_of_step_yes:
  assumes "name s \<noteq> []" "stype s = BOOL \<or> stype s = TRISTATE" "tri_value s = 2"
  shows "map_of (defines_dict (process_sym s st)) =
     (map_of (defines_dict st))(name s \<mapsto> ''1'', ''CONFIG_'' @ name s \<mapsto> ''1'')"
    and "cmake_sets (process_sym s st) = cmake_sets st @ [set_line (name s) ''y'']"
  using assms by (simp_all add: process_sym_def map_of_emit_symbol)

lemma map_of_step_module:
  assumes "name s \<noteq> []" "stype s = BOOL \<or> stype s = TRISTATE" "tri_value s = 1"
  shows "map_of (defines_dict (process_sym s st)) =
     (map_of (defines_dict st))(name s \<mapsto> ''m'', ''CONFIG_'' @ name s \<mapsto> ''m'',
        name s @ ''_MODULE'' \<mapsto> ''1'', ''CONFIG_'' @ name s @ ''_MODULE'' \<mapsto> ''1'')"
    and "cmake_sets (process_sym s st) = cmake_sets st @ [set_line (name s) ''m'']"
  using assms by (simp_all add: process_sym_def map_of_emit_symbol)

lemma map_of_step_value:
  assumes "name s \<noteq> []" "stype s = INT_TYPE \<or> stype s = HEX \<or> stype s = STRING"
    "str_value s = Some v" "v \<noteq> []"
  shows "map_of (defines_dict (process_sym s st)) =
     (map_of (defines_dict st))
       (name s \<mapsto> (if stype s = STRING then [dquote] @ v @ [dquote] else v),
        ''CONFIG_'' @ name s \<mapsto> (if stype s = STRING then [dquote] @ v @ [dquote] else v))"
    and "cmake_sets (process_sym s st) = cmake_sets st @ [set_line (name s) (cmake_escape v)]"
  using assms by (auto simp add: process_sym_def map_of_emit_symbol)

lemma keys_written_module:
  assumes "name s \<noteq> []" "stype s = BOOL \<or> stype s = TRISTATE" "tri_value s = 1"
  shows "set (keys_written s) =
     {name s, ''CONFIG_'' @ name s, name s @ ''_MODULE'', ''CONFIG_'' @ name s @ ''_MODULE''}"
  using assms
  by (auto simp add: keys_written_def process_sym_def keys_emit_symbol init_state_def)

lemma keys_written_value:
  assumes "name s \<noteq> []" "stype s = INT_TYPE \<or> stype s = HEX \<or> stype s = STRING"
    "str_value s = Some v" "v \<noteq> []"
  shows "set (keys_written s) = {name s, ''CONFIG_'' @ name s}"
  using assms
  by (auto simp add: keys_written_def process_sym_def keys_emit_symbol init_state_def)

lemma value_symbol_skip:
  assumes "stype s = INT_TYPE \<or> stype s = HEX \<or> stype s = STRING"
    and "str_value s = None \<or> str_value s = Some []"
  shows "process_sym s st = st"
  using assms by (auto simp add: process_sym_def)

lemma set_line_name_inj:
  assumes "CHR '' '' \<notin> set a" and "CHR '' '' \<notin> set b" and "set_line a v = set_line b w"
  shows "a = b"
proof -
  have tw: "takeWhile (\<lambda>c. c \<noteq> CHR '' '') (drop 11 (set_line nm x)) = nm"
    if "CHR '' '' \<notin> set nm" for nm x
    using that by (auto simp add: set_line_def takeWhile_tail)
  from tw [OF assms(1), of v] tw [OF assms(2), of w] assms(3) show ?thesis
    by metis
qed

lemma assignments_other_names:
  assumes "\<forall>t\<in>set syms. name t \<noteq> nm \<and> CHR '' '' \<notin> set (name t)"
    and "CHR '' '' \<notin> set nm"
  shows "set_line nm v \<notin> set (assignments syms)"
proof
  assume "set_line nm v \<in> set (assignments syms)"
  then obtain t where t: "t \<in> set syms" and l: "set_line nm v \<in> set (assignments [t])"
    by (subst (asm) assignments_concat) auto
  from assignments_single [of t] l obtain w where "set_line nm v = set_line (name t) w"
    by auto
  with assms t have "nm = name t"
    by (auto dest: set_line_name_inj [rotated 2])
  with assms(1) t show False by auto
qed

subsection \<open>Missing interpreter, missing schema\<close>

text \<open>
  C2. When \<^verbatim>\<open>import kconfiglib\<close> raises \<^verbatim>\<open>ModuleNotFoundError\<close>, the translator returns
  exit code 1, appends the diagnostic \<^verbatim>\<open>kconfiglib is not installed.\<close> to the error
  stream and leaves every file and directory as it was: nothing is written or created at
  the output path.
\<close>

theorem missing_interpreter_exit_1:
  "generate_cache None kconfig_path config_path output_path w =
     (1, w\<lparr>stderr := stderr w @ ''kconfiglib is not installed.'' @ [newline]\<rparr>)
   \<and> files (snd (generate_cache None kconfig_path config_path output_path w)) = files w
   \<and> dirs (snd (generate_cache None kconfig_path config_path output_path w)) = dirs w
   \<and> stderr (snd (generate_cache None kconfig_path config_path output_path w)) \<noteq> stderr w"
  by (simp add: generate_cache_def stderr_write_def)

text \<open>
  When the schema file is there, the translator returns 0 and writes the document of the
  symbols that the library reports; the document is laid out around the aggregated
  collection and the assignment-statement sequence.
\<close>

lemma generate_cache_success:
  assumes "is_file kconfig_path w"
  shows "generate_cache (Some kl) kconfig_path config_path output_path w =
     (0, write_text output_path
           (document (unique_defined_syms kl (loaded_kconf kl kconfig_path config_path w)))
           (mkdir_parents (parent output_path)
              (if is_file config_path w then w
               else stderr_write
                      (''warning: config file '' @ [CHR 0x27] @ path_str config_path
                         @ [CHR 0x27] @ '' not found; continuing with defaults.''
                         @ [newline]) w)))"
  using assms by (simp add: generate_cache_def loaded_kconf_def Let_def)

lemma document_layout:
  "document syms =
     str_join [newline]
       ([''# This file is auto-generated. Do not edit.'', ''set(AEROSYNC_KCONFIG_DEFINES'']
        @ aggregated syms @ ['')'' @ [newline]] @ assignments syms @ [[newline]])"
  by (simp add: document_def output_lines_def aggregated_def assignments_def defines_of_def)

text \<open>
  C3. When the interpreter is available and the schema path is not a file, the translator
  returns exit code 0 and the output file holds exactly the placeholder text: the line
  \<^verbatim>\<open># Auto-generated placeholder. Run menuconfig to populate symbols.\<close> and the line
  \<^verbatim>\<open>set(AEROSYNC_KCONFIG_DEFINES)\<close>, each ended by a newline.
\<close>

theorem missing_schema_placeholder:
  assumes "\<not> is_file kconfig_path w"
  shows "fst (generate_cache (Some kl) kconfig_path config_path output_path w) = 0
    \<and> files (snd (generate_cache (Some kl) kconfig_path config_path output_path w)) output_path =
        Some (''# Auto-generated placeholder. Run menuconfig to populate symbols.'' @ [newline]
              @ ''set(AEROSYNC_KCONFIG_DEFINES)'' @ [newline])"
  using assms
  by (simp add: generate_cache_def write_minimal_output_def write_text_def placeholder_text_def)

theorem missing_schema_placeholder_witness:
  "\<not> is_file example_kconfig_path empty_world
   \<and> generate_cache (Some (example_kconfiglib [])) example_kconfig_path example_config_path
        example_output_path empty_world =
      (0, \<lparr>files = [example_output_path \<mapsto>
                ''# Auto-generated placeholder. Run menuconfig to populate symbols.'' @ [newline]
                @ ''set(AEROSYNC_KCONFIG_DEFINES)'' @ [newline]],
            dirs = {\<lparr>root = [], parts = []\<rparr>, \<lparr>root = [], parts = [''build'']\<rparr>},
            stderr = ''warning: Kconfig file '' @ [CHR 0x27] @ ''Kconfig'' @ [CHR 0x27]
                @ '' not found; emitting empty cache.'' @ [newline]\<rparr>)"
proof -
  have h: "\<not> is_file example_kconfig_path empty_world"
    by (simp add: is_file_def empty_world_def)
  from missing_schema_placeholder [OF h, of "example_kconfiglib []" example_config_path example_output_path]
  show ?thesis
    using h
    by (simp add: generate_cache_def write_minimal_output_def write_text_def placeholder_text_def
          mkdir_parents_def parent_def stderr_write_def path_str_def empty_world_def
          example_output_path_def example_kconfig_path_def insert_commute)
qed

subsection \<open>The empty schema\<close>

text \<open>
  C9. With the interpreter available and the schema file present, a schema whose list of
  uniquely defined symbols is empty gives exit code 0, an aggregated collection with no
  entry and an assignment-statement sequence with no line; the file written is the two
  header lines, the closing parenthesis and the blank lines of the layout.
\<close>

theorem empty_schema_empty_output:
  assumes "is_file kconfig_path w"
    and "unique_defined_syms kl (loaded_kconf kl kconfig_path config_path w) = []"
  shows "fst (generate_cache (Some kl) kconfig_path config_path output_path w) = 0
    \<and> aggregated (unique_defined_syms kl (loaded_kconf kl kconfig_path config_path w)) = []
    \<and> assignments (unique_defined_syms kl (loaded_kconf kl kconfig_path config_path w)) = []
    \<and> files (snd (generate_cache (Some kl) kconfig_path config_path output_path w)) output_path =
        Some (''# This file is auto-generated. Do not edit.'' @ [newline]
              @ ''set(AEROSYNC_KCONFIG_DEFINES'' @ [newline]
              @ '')'' @ [newline] @ [newline] @ [newline])"
  using assms
  by (simp add: generate_cache_success write_text_def document_layout aggregated_def
        assignments_def defines_of_def init_state_def define_lines_def sorted_names_def)

theorem empty_schema_empty_output_witness:
  "is_file example_kconfig_path schema_world
   \<and> unique_defined_syms (example_kconfiglib [])
        (loaded_kconf (example_kconfiglib []) example_kconfig_path example_config_path schema_world) = []
   \<and> fst (generate_cache (Some (example_kconfiglib [])) example_kconfig_path example_config_path
        example_output_path schema_world) = 0
   \<and> files (snd (generate_cache (Some (example_kconfiglib [])) example_kconfig_path
        example_config_path example_output_path schema_world)) example_output_path =
        Some (''# This file is auto-generated. Do not edit.'' @ [newline]
              @ ''set(AEROSYNC_KCONFIG_DEFINES'' @ [newline]
              @ '')'' @ [newline] @ [newline] @ [newline])"
proof -
  have h1: "is_file example_kconfig_path schema_world"
    by (simp add: is_file_def schema_world_def)
  have h2: "unique_defined_syms (example_kconfiglib [])
        (loaded_kconf (example_kconfiglib []) example_kconfig_path example_config_path schema_world) = []"
    by (simp add: loaded_kconf_def example_kconfiglib_def)
  from empty_schema_empty_output [OF h1 h2, of example_output_path] h1 h2
  show ?thesis by simp
qed

subsection \<open>Boolean and tri-state symbols\<close>

text \<open>
  C4, as the code has it. For a boolean symbol resolved as fully selected, with a
  non-empty name \<open>FOO\<close>: the assignment-statement sequence contains
  \<^verbatim>\<open>set(CONFIG_FOO "y")\<close>, wherever the symbol stands in the schema; and when no symbol
  later in the schema order assigns the key \<open>FOO\<close> or \<open>CONFIG_FOO\<close>, the dictionary
  maps both keys to \<open>1\<close> and the aggregated collection contains the entries
  \<open>FOO=1\<close> and \<open>CONFIG_FOO=1\<close>.
\<close>

theorem fully_selected_boolean_entries:
  assumes "stype s = BOOL" and "tri_value s = 2" and "name s \<noteq> []"
  shows "set_line (name s) ''y'' \<in> set (assignments (xs @ s # ys))
    \<and> ((\<forall>t\<in>set ys. name s \<notin> set (keys_written t) \<and> ''CONFIG_'' @ name s \<notin> set (keys_written t)) \<longrightarrow>
         map_of (defines_of (xs @ s # ys)) (name s) = Some ''1''
         \<and> map_of (defines_of (xs @ s # ys)) (''CONFIG_'' @ name s) = Some ''1''
         \<and> define_line (name s) ''1'' \<in> set (aggregated (xs @ s # ys))
         \<and> define_line (''CONFIG_'' @ name s) ''1'' \<in> set (aggregated (xs @ s # ys)))"
proof -
  have bt: "stype s = BOOL \<or> stype s = TRISTATE" using assms(1) by simp
  have "assignments [s] = [set_line (name s) ''y'']"
    using assms bt by (simp add: assignments_def map_of_step_yes(2) init_state_def)
  then have a: "set_line (name s) ''y'' \<in> set (assignments (xs @ s # ys))"
    using assignments_mid [of s xs ys] by auto
  have b: "map_of (defines_of (xs @ s # ys)) (name s) = Some ''1''
         \<and> map_of (defines_of (xs @ s # ys)) (''CONFIG_'' @ name s) = Some ''1''"
    if "\<forall>t\<in>set ys. name s \<notin> set (keys_written t) \<and> ''CONFIG_'' @ name s \<notin> set (keys_written t)"
    using that assms(2,3) bt
    by (simp add: map_of_defines_of_mid map_of_step_yes(1) key_neq)
  show ?thesis
    using a b by (auto simp add: aggregated_def intro: define_line_mem)
qed

theorem fully_selected_boolean_entries_witness:
  "stype sym_FOO = BOOL \<and> tri_value sym_FOO = 2 \<and> name sym_FOO = ''FOO''
   \<and> set_line ''FOO'' ''y'' \<in> set (assignments [sym_ALPHA, sym_FOO, sym_ZED])
   \<and> map_of (defines_of [sym_ALPHA, sym_FOO, sym_ZED]) ''FOO'' = Some ''1''
   \<and> map_of (defines_of [sym_ALPHA, sym_FOO, sym_ZED]) ''CONFIG_FOO'' = Some ''1''
   \<and> define_line ''FOO'' ''1'' \<in> set (aggregated [sym_ALPHA, sym_FOO, sym_ZED])
   \<and> define_line ''CONFIG_FOO'' ''1'' \<in> set (aggregated [sym_ALPHA, sym_FOO, sym_ZED])"
proof -
  have h1: "stype sym_FOO = BOOL" and h2: "tri_value sym_FOO = 2"
    and nm: "name sym_FOO = ''FOO''"
    by (simp_all add: sym_FOO_def)
  have h3: "name sym_FOO \<noteq> []" by (simp add: nm)
  have h4: "\<forall>t\<in>set [sym_ZED]. name sym_FOO \<notin> set (keys_written t)
      \<and> ''CONFIG_'' @ name sym_FOO \<notin> set (keys_written t)"
    by code_simp
  from fully_selected_boolean_entries [OF h1 h2 h3, of "[sym_ALPHA]" "[sym_ZED]"] h4
  show ?thesis
    by (simp add: h1 h2 nm)
qed

text \<open>
  C4, as the specification words it, fails: in the schema of the boolean \<open>FOO\<close> (fully
  selected) followed by the integer symbol named \<open>CONFIG_FOO\<close> with value 5, the later
  symbol assigns the key \<open>CONFIG_FOO\<close> again, and the aggregated collection has
  \<open>CONFIG_FOO=5\<close> and no entry \<open>CONFIG_FOO=1\<close>.
\<close>

theorem fully_selected_boolean_counterexample:
  "stype sym_FOO = BOOL \<and> tri_value sym_FOO = 2 \<and> name sym_FOO = ''FOO''
   \<and> aggregated [sym_FOO, sym_CONFIG_FOO] =
       [''    '' @ [dquote] @ ''CONFIG_CONFIG_FOO=5'' @ [dquote],
        ''    '' @ [dquote] @ ''CONFIG_FOO=5'' @ [dquote],
        ''    '' @ [dquote] @ ''FOO=1'' @ [dquote]]
   \<and> ''    '' @ [dquote] @ ''CONFIG_FOO=1'' @ [dquote] \<notin> set (aggregated [sym_FOO, sym_CONFIG_FOO])"
  by code_simp

text \<open>
  C1, as the code has it. For a tri-state symbol resolved as module-selected, with a
  non-empty name \<open>BAR\<close>: the symbol assigns exactly the four keys \<open>BAR\<close>,
  \<open>CONFIG_BAR\<close>, \<open>BAR_MODULE\<close> and \<open>CONFIG_BAR_MODULE\<close>; alone in a schema it gives
  exactly the entries \<open>BAR=m\<close>, \<open>CONFIG_BAR=m\<close>, \<open>BAR_MODULE=1\<close> and
  \<open>CONFIG_BAR_MODULE=1\<close>; the assignment-statement sequence contains
  \<^verbatim>\<open>set(CONFIG_BAR "m")\<close>; and in any schema where no later symbol assigns one of the
  four keys, the aggregated collection contains these four entries.
\<close>

theorem module_selected_entries:
  assumes "stype s = TRISTATE" and "tri_value s = 1" and "name s \<noteq> []"
  shows "set (keys_written s) =
       {name s, ''CONFIG_'' @ name s, name s @ ''_MODULE'', ''CONFIG_'' @ name s @ ''_MODULE''}
    \<and> set (aggregated [s]) =
       {define_line (name s) ''m'', define_line (''CONFIG_'' @ name s) ''m'',
        define_line (name s @ ''_MODULE'') ''1'',
        define_line (''CONFIG_'' @ name s @ ''_MODULE'') ''1''}
    \<and> set_line (name s) ''m'' \<in> set (assignments (xs @ s # ys))
    \<and> ((\<forall>t\<in>set ys. \<forall>k\<in>set (keys_written s). k \<notin> set (keys_written t)) \<longrightarrow>
         map_of (defines_of (xs @ s # ys)) (name s) = Some ''m''
         \<and> map_of (defines_of (xs @ s # ys)) (''CONFIG_'' @ name s) = Some ''m''
         \<and> map_of (defines_of (xs @ s # ys)) (name s @ ''_MODULE'') = Some ''1''
         \<and> map_of (defines_of (xs @ s # ys)) (''CONFIG_'' @ name s @ ''_MODULE'') = Some ''1''
         \<and> define_line (name s) ''m'' \<in> set (aggregated (xs @ s # ys))
         \<and> define_line (''CONFIG_'' @ name s) ''m'' \<in> set (aggregated (xs @ s # ys))
         \<and> define_line (name s @ ''_MODULE'') ''1'' \<in> set (aggregated (xs @ s # ys))
         \<and> define_line (''CONFIG_'' @ name s @ ''_MODULE'') ''1'' \<in> set (aggregated (xs @ s # ys)))"
proof -
  have bt: "stype s = BOOL \<or> stype s = TRISTATE" using assms(1) by simp
  note keys = keys_written_module [OF assms(3) bt assms(2)]
  note step = map_of_step_module [OF assms(3) bt assms(2)]
  have agg: "set (aggregated [s]) =
       {define_line (name s) ''m'', define_line (''CONFIG_'' @ name s) ''m'',
        define_line (name s @ ''_MODULE'') ''1'',
        define_line (''CONFIG_'' @ name s @ ''_MODULE'') ''1''}"
    using keys
    by (simp add: aggregated_def defines_of_def set_define_lines keys_written_def step(1) key_neq
          flip: set_map)
  have "assignments [s] = [set_line (name s) ''m'']"
    by (simp add: assignments_def step(2) init_state_def)
  then have asg: "set_line (name s) ''m'' \<in> set (assignments (xs @ s # ys))"
    using assignments_mid [of s xs ys] by auto
  have look: "map_of (defines_of (xs @ s # ys)) (name s) = Some ''m''
         \<and> map_of (defines_of (xs @ s # ys)) (''CONFIG_'' @ name s) = Some ''m''
         \<and> map_of (defines_of (xs @ s # ys)) (name s @ ''_MODULE'') = Some ''1''
         \<and> map_of (defines_of (xs @ s # ys)) (''CONFIG_'' @ name s @ ''_MODULE'') = Some ''1''"
    if "\<forall>t\<in>set ys. \<forall>k\<in>set (keys_written s). k \<notin> set (keys_written t)"
    using that unfolding keys
    by (simp add: map_of_defines_of_mid step(1) key_neq)
  show ?thesis
    using keys agg asg look by (auto simp add: aggregated_def intro: define_line_mem)
qed

theorem module_selected_entries_witness:
  "stype sym_BAR = TRISTATE \<and> tri_value sym_BAR = 1 \<and> name sym_BAR = ''BAR''
   \<and> set (keys_written sym_BAR) = {''BAR'', ''CONFIG_BAR'', ''BAR_MODULE'', ''CONFIG_BAR_MODULE''}
   \<and> set_line ''BAR'' ''m'' \<in> set (assignments [sym_ALPHA, sym_BAR, sym_ZED])
   \<and> map_of (defines_of [sym_ALPHA, sym_BAR, sym_ZED]) ''BAR'' = Some ''m''
   \<and> map_of (defines_of [sym_ALPHA, sym_BAR, sym_ZED]) ''CONFIG_BAR'' = Some ''m''
   \<and> map_of (defines_of [sym_ALPHA, sym_BAR, sym_ZED]) ''BAR_MODULE'' = Some ''1''
   \<and> map_of (defines_of [sym_ALPHA, sym_BAR, sym_ZED]) ''CONFIG_BAR_MODULE'' = Some ''1''
   \<and> define_line ''BAR'' ''m'' \<in> set (aggregated [sym_ALPHA, sym_BAR, sym_ZED])
   \<and> define_line ''CONFIG_BAR_MODULE'' ''1'' \<in> set (aggregated [sym_ALPHA, sym_BAR, sym_ZED])"
proof -
  have h1: "stype sym_BAR = TRISTATE" and h2: "tri_value sym_BAR = 1"
    and nm: "name sym_BAR = ''BAR''"
    by (simp_all add: sym_BAR_def)
  have h3: "name sym_BAR \<noteq> []" by (simp add: nm)
  have h4: "\<forall>t\<in>set [sym_ZED]. \<forall>k\<in>set (keys_written sym_BAR). k \<notin> set (keys_written t)"
    by code_simp
  from module_selected_entries [OF h1 h2 h3, of "[sym_ALPHA]" "[sym_ZED]"] h4
  show ?thesis
    by (simp add: h1 h2 nm insert_commute)
qed

text \<open>
  C1, as the specification words it, fails: for the tri-state symbol \<open>BAR\<close>, module-selected
  and alone in the schema, the aggregated collection is \<open>BAR=m\<close>, \<open>BAR_MODULE=1\<close>,
  \<open>CONFIG_BAR=m\<close>, \<open>CONFIG_BAR_MODULE=1\<close>: the entries \<open>BAR=1\<close> and
  \<open>CONFIG_BAR=1\<close> are not there, and there is a fourth entry.
\<close>

theorem module_selected_counterexample:
  "stype sym_BAR = TRISTATE \<and> tri_value sym_BAR = 1 \<and> name sym_BAR = ''BAR''
   \<and> aggregated [sym_BAR] =
       [''    '' @ [dquote] @ ''BAR=m'' @ [dquote],
        ''    '' @ [dquote] @ ''BAR_MODULE=1'' @ [dquote],
        ''    '' @ [dquote] @ ''CONFIG_BAR=m'' @ [dquote],
        ''    '' @ [dquote] @ ''CONFIG_BAR_MODULE=1'' @ [dquote]]
   \<and> ''    '' @ [dquote] @ ''BAR=1'' @ [dquote] \<notin> set (aggregated [sym_BAR])
   \<and> ''    '' @ [dquote] @ ''CONFIG_BAR=1'' @ [dquote] \<notin> set (aggregated [sym_BAR])
   \<and> ''    '' @ [dquote] @ ''CONFIG_BAR_MODULE=1'' @ [dquote] \<in> set (aggregated [sym_BAR])"
  by code_simp

text \<open>
  C7, as the code has it. A boolean or tri-state symbol whose resolved value is unselected
  is skipped: its step leaves the dictionary and the assignment list as they are and it
  assigns no key, so the aggregated collection, the assignment-statement sequence and the
  whole document are those of the schema without the symbol. When no other symbol of the
  schema assigns its name or its \<open>CONFIG_\<close> name, neither is a key of the aggregated
  collection; and when no other symbol has its name (names without a space), no
  assignment statement \<^verbatim>\<open>set(CONFIG_<name> "...")\<close> is in the sequence.
\<close>

theorem unselected_symbol_absent:
  assumes "stype s = BOOL \<or> stype s = TRISTATE" and "tri_value s = 0"
  shows "process_sym s st = st
    \<and> keys_written s = [] \<and> aggregated [s] = [] \<and> assignments [s] = []
    \<and> aggregated (xs @ s # ys) = aggregated (xs @ ys)
    \<and> assignments (xs @ s # ys) = assignments (xs @ ys)
    \<and> document (xs @ s # ys) = document (xs @ ys)
    \<and> ((\<forall>t\<in>set (xs @ ys). name s \<notin> set (keys_written t)
            \<and> ''CONFIG_'' @ name s \<notin> set (keys_written t)) \<longrightarrow>
         name s \<notin> fst ` set (defines_of (xs @ s # ys))
         \<and> ''CONFIG_'' @ name s \<notin> fst ` set (defines_of (xs @ s # ys)))
    \<and> ((\<forall>t\<in>set (xs @ ys). name t \<noteq> name s \<and> CHR '' '' \<notin> set (name t))
          \<and> CHR '' '' \<notin> set (name s) \<longrightarrow>
         (\<forall>v. set_line (name s) v \<notin> set (assignments (xs @ s # ys))))"
proof -
  have skip: "process_sym s st' = st'" for st'
    using assms by (simp add: process_sym_def)
  have run: "process_syms (xs @ s # ys) init_state = process_syms (xs @ ys) init_state"
    by (rule process_syms_skip) (rule skip)
  have "keys_written s = []"
    by (simp add: keys_written_def skip init_state_def)
  moreover have "aggregated [s] = []"
    by (simp add: aggregated_def defines_of_def skip)
       (simp add: init_state_def define_lines_def sorted_names_def)
  moreover have "assignments [s] = []"
    by (simp add: assignments_def skip) (simp add: init_state_def)
  moreover have "aggregated (xs @ s # ys) = aggregated (xs @ ys)"
    by (simp add: aggregated_def defines_of_def run)
  moreover have asg: "assignments (xs @ s # ys) = assignments (xs @ ys)"
    by (simp add: assignments_def run)
  moreover have "document (xs @ s # ys) = document (xs @ ys)"
    by (simp add: document_def run)
  moreover have "(\<forall>t\<in>set (xs @ ys). name s \<notin> set (keys_written t)
            \<and> ''CONFIG_'' @ name s \<notin> set (keys_written t)) \<longrightarrow>
         name s \<notin> fst ` set (defines_of (xs @ s # ys))
         \<and> ''CONFIG_'' @ name s \<notin> fst ` set (defines_of (xs @ s # ys))"
    unfolding keys_defines_of using \<open>keys_written s = []\<close> by auto
  moreover have "(\<forall>t\<in>set (xs @ ys). name t \<noteq> name s \<and> CHR '' '' \<notin> set (name t))
          \<and> CHR '' '' \<notin> set (name s) \<longrightarrow>
         (\<forall>v. set_line (name s) v \<notin> set (assignments (xs @ s # ys)))"
  proof (intro impI allI)
    fix v
    assume h: "(\<forall>t\<in>set (xs @ ys). name t \<noteq> name s \<and> CHR '' '' \<notin> set (name t))
          \<and> CHR '' '' \<notin> set (name s)"
    then have "set_line (name s) v \<notin> set (assignments (xs @ ys))"
      by (intro assignments_other_names) (rule conjunct1, assumption, rule conjunct2, assumption)
    then show "set_line (name s) v \<notin> set (assignments (xs @ s # ys))"
      unfolding asg .
  qed
  ultimately show ?thesis using skip by blast
qed

theorem unselected_symbol_absent_witness:
  "(stype sym_OFF = BOOL \<or> stype sym_OFF = TRISTATE) \<and> tri_value sym_OFF = 0
   \<and> aggregated [sym_ZED, sym_OFF, sym_ALPHA] = aggregated [sym_ZED, sym_ALPHA]
   \<and> assignments [sym_ZED, sym_OFF, sym_ALPHA] = assignments [sym_ZED, sym_ALPHA]
   \<and> document [sym_ZED, sym_OFF, sym_ALPHA] = document [sym_ZED, sym_ALPHA]
   \<and> ''OFF'' \<notin> fst ` set (defines_of [sym_ZED, sym_OFF, sym_ALPHA])
   \<and> ''CONFIG_OFF'' \<notin> fst ` set (defines_of [sym_ZED, sym_OFF, sym_ALPHA])
   \<and> set_line ''OFF'' ''y'' \<notin> set (assignments [sym_ZED, sym_OFF, sym_ALPHA])
   \<and> set_line ''OFF'' ''m'' \<notin> set (assignments [sym_ZED, sym_OFF, sym_ALPHA])"
proof -
  have h1: "stype sym_OFF = BOOL \<or> stype sym_OFF = TRISTATE" and h2: "tri_value sym_OFF = 0"
    and nm: "name sym_OFF = ''OFF''"
    by (simp_all add: sym_OFF_def)
  have h3: "\<forall>t\<in>set ([sym_ZED] @ [sym_ALPHA]). name sym_OFF \<notin> set (keys_written t)
      \<and> ''CONFIG_'' @ name sym_OFF \<notin> set (keys_written t)"
    by code_simp
  have h4: "(\<forall>t\<in>set ([sym_ZED] @ [sym_ALPHA]). name t \<noteq> name sym_OFF \<and> CHR '' '' \<notin> set (name t))
      \<and> CHR '' '' \<notin> set (name sym_OFF)"
    by code_simp
  from unselected_symbol_absent [OF h1 h2, of init_state "[sym_ZED]" "[sym_ALPHA]"] h3 h4
  have "aggregated ([sym_ZED] @ sym_OFF # [sym_ALPHA]) = aggregated ([sym_ZED] @ [sym_ALPHA])
    \<and> assignments ([sym_ZED] @ sym_OFF # [sym_ALPHA]) = assignments ([sym_ZED] @ [sym_ALPHA])
    \<and> document ([sym_ZED] @ sym_OFF # [sym_ALPHA]) = document ([sym_ZED] @ [sym_ALPHA])
    \<and> name sym_OFF \<notin> fst ` set (defines_of ([sym_ZED] @ sym_OFF # [sym_ALPHA]))
    \<and> ''CONFIG_'' @ name sym_OFF \<notin> fst ` set (defines_of ([sym_ZED] @ sym_OFF # [sym_ALPHA]))
    \<and> set_line (name sym_OFF) ''y'' \<notin> set (assignments ([sym_ZED] @ sym_OFF # [sym_ALPHA]))
    \<and> set_line (name sym_OFF) ''m'' \<notin> set (assignments ([sym_ZED] @ sym_OFF # [sym_ALPHA]))"
    by blast
  then show ?thesis
    using h1 h2 by (auto simp add: nm)
qed

text \<open>
  C7, as the specification words it, fails: in the schema of \<open>MODULES\<close> (fully
  selected), the tri-state \<open>X\<close> (module-selected) and the boolean \<open>X_MODULE\<close>
  (unselected), the symbol \<open>X\<close> assigns the keys \<open>X_MODULE\<close> and \<open>CONFIG_X_MODULE\<close>,
  so the aggregated collection has the entries \<open>X_MODULE=1\<close> and
  \<open>CONFIG_X_MODULE=1\<close> under the name of the unselected symbol.
\<close>

theorem unselected_symbol_counterexample:
  "stype sym_X_MODULE = BOOL \<and> tri_value sym_X_MODULE = 0 \<and> name sym_X_MODULE = ''X_MODULE''
   \<and> aggregated [sym_MODULES, sym_X, sym_X_MODULE] =
       [''    '' @ [dquote] @ ''CONFIG_MODULES=1'' @ [dquote],
        ''    '' @ [dquote] @ ''CONFIG_X=m'' @ [dquote],
        ''    '' @ [dquote] @ ''CONFIG_X_MODULE=1'' @ [dquote],
        ''    '' @ [dquote] @ ''MODULES=1'' @ [dquote],
        ''    '' @ [dquote] @ ''X=m'' @ [dquote],
        ''    '' @ [dquote] @ ''X_MODULE=1'' @ [dquote]]
   \<and> ''    '' @ [dquote] @ ''X_MODULE=1'' @ [dquote]
        \<in> set (aggregated [sym_MODULES, sym_X, sym_X_MODULE])
   \<and> ''    '' @ [dquote] @ ''CONFIG_X_MODULE=1'' @ [dquote]
        \<in> set (aggregated [sym_MODULES, sym_X, sym_X_MODULE])
   \<and> map_of (defines_of [sym_MODULES, sym_X, sym_X_MODULE]) ''X_MODULE'' = Some ''1''
   \<and> map_of (defines_of [sym_MODULES, sym_X, sym_X_MODULE]) ''CONFIG_X_MODULE'' = Some ''1''"
  by code_simp

subsection \<open>Integer, hexadecimal and string symbols\<close>

text \<open>
  C8. For an integer, hexadecimal or string symbol: with an empty resolved value
  (\<^verbatim>\<open>None\<close> or the empty string) the step changes nothing and the document is that of
  the schema without the symbol; with a non-empty value \<open>v\<close> (and a non-empty name) the
  step assigns exactly the bare name and the \<open>CONFIG_\<close> name, both to \<open>v\<close>, for the
  string type to \<open>v\<close> wrapped in double quotes, and appends the assignment statement;
  the two entries are in the aggregated collection when no later symbol assigns their
  keys again.
\<close>

theorem value_symbol_entries:
  assumes "stype s = INT_TYPE \<or> stype s = HEX \<or> stype s = STRING"
  shows "((str_value s = None \<or> str_value s = Some []) \<longrightarrow>
        process_sym s st = st \<and> keys_written s = []
        \<and> aggregated (xs @ s # ys) = aggregated (xs @ ys)
        \<and> assignments (xs @ s # ys) = assignments (xs @ ys)
        \<and> document (xs @ s # ys) = document (xs @ ys))
    \<and> (name s \<noteq> [] \<and> str_value s = Some v \<and> v \<noteq> [] \<longrightarrow>
        map_of (defines_dict (process_sym s st)) (name s) =
          Some (if stype s = STRING then [dquote] @ v @ [dquote] else v)
        \<and> map_of (defines_dict (process_sym s st)) (''CONFIG_'' @ name s) =
          Some (if stype s = STRING then [dquote] @ v @ [dquote] else v)
        \<and> set (keys_written s) = {name s, ''CONFIG_'' @ name s}
        \<and> cmake_sets (process_sym s st) = cmake_sets st @ [set_line (name s) (cmake_escape v)]
        \<and> ((\<forall>t\<in>set ys. name s \<notin> set (keys_written t)
               \<and> ''CONFIG_'' @ name s \<notin> set (keys_written t)) \<longrightarrow>
             define_line (name s) (if stype s = STRING then [dquote] @ v @ [dquote] else v)
               \<in> set (aggregated (xs @ s # ys))
             \<and> define_line (''CONFIG_'' @ name s)
                 (if stype s = STRING then [dquote] @ v @ [dquote] else v)
               \<in> set (aggregated (xs @ s # ys))))"
proof -
  have empty: "process_sym s st = st \<and> keys_written s = []
        \<and> aggregated (xs @ s # ys) = aggregated (xs @ ys)
        \<and> assignments (xs @ s # ys) = assignments (xs @ ys)
        \<and> document (xs @ s # ys) = document (xs @ ys)"
    if e: "str_value s = None \<or> str_value s = Some []"
  proof -
    have skip: "process_sym s st' = st'" for st'
      using assms e by (rule value_symbol_skip)
    have run: "process_syms (xs @ s # ys) init_state = process_syms (xs @ ys) init_state"
      by (rule process_syms_skip) (rule skip)
    show ?thesis
      by (simp add: skip run keys_written_def aggregated_def defines_of_def assignments_def
            document_def) (simp add: init_state_def)
  qed
  have full: "map_of (defines_dict (process_sym s st)) (name s) =
          Some (if stype s = STRING then [dquote] @ v @ [dquote] else v)
        \<and> map_of (defines_dict (process_sym s st)) (''CONFIG_'' @ name s) =
          Some (if stype s = STRING then [dquote] @ v @ [dquote] else v)
        \<and> set (keys_written s) = {name s, ''CONFIG_'' @ name s}
        \<and> cmake_sets (process_sym s st) = cmake_sets st @ [set_line (name s) (cmake_escape v)]
        \<and> ((\<forall>t\<in>set ys. name s \<notin> set (keys_written t)
               \<and> ''CONFIG_'' @ name s \<notin> set (keys_written t)) \<longrightarrow>
             define_line (name s) (if stype s = STRING then [dquote] @ v @ [dquote] else v)
               \<in> set (aggregated (xs @ s # ys))
             \<and> define_line (''CONFIG_'' @ name s)
                 (if stype s = STRING then [dquote] @ v @ [dquote] else v)
               \<in> set (aggregated (xs @ s # ys)))"
    if n: "name s \<noteq> []" and sv: "str_value s = Some v" and v: "v \<noteq> []"
  proof -
    note step = map_of_step_value [OF n assms sv v]
    have a: "map_of (defines_dict (process_sym s st')) (name s) =
          Some (if stype s = STRING then [dquote] @ v @ [dquote] else v)
        \<and> map_of (defines_dict (process_sym s st')) (''CONFIG_'' @ name s) =
          Some (if stype s = STRING then [dquote] @ v @ [dquote] else v)" for st'
      by (simp add: step(1))
    have b: "map_of (defines_of (xs @ s # ys)) (name s) =
          Some (if stype s = STRING then [dquote] @ v @ [dquote] else v)
        \<and> map_of (defines_of (xs @ s # ys)) (''CONFIG_'' @ name s) =
          Some (if stype s = STRING then [dquote] @ v @ [dquote] else v)"
      if "\<forall>t\<in>set ys. name s \<notin> set (keys_written t)
               \<and> ''CONFIG_'' @ name s \<notin> set (keys_written t)"
      using that a [of "process_syms xs init_state"] by (simp add: map_of_defines_of_mid)
    show ?thesis
      using a [of st] b keys_written_value [OF n assms sv v] step(2) [of st]
      by (auto simp add: aggregated_def intro: define_line_mem)
  qed
  show ?thesis
    using empty full by blast
qed

theorem value_symbol_entries_witness:
  "stype sym_ALPHA = INT_TYPE \<and> str_value sym_ALPHA = Some ''7''
   \<and> stype sym_NAME = STRING \<and> str_value sym_NAME = Some quoted_value
   \<and> stype sym_EMPTY = HEX \<and> str_value sym_EMPTY = Some []
   \<and> map_of (defines_dict (process_sym sym_ALPHA init_state)) ''ALPHA'' = Some ''7''
   \<and> map_of (defines_dict (process_sym sym_ALPHA init_state)) ''CONFIG_ALPHA'' = Some ''7''
   \<and> define_line ''ALPHA'' ''7'' \<in> set (aggregated [sym_ZED, sym_ALPHA, sym_FOO])
   \<and> define_line ''CONFIG_ALPHA'' ''7'' \<in> set (aggregated [sym_ZED, sym_ALPHA, sym_FOO])
   \<and> map_of (defines_dict (process_sym sym_NAME init_state)) ''NAME'' =
        Some ([dquote] @ quoted_value @ [dquote])
   \<and> map_of (defines_dict (process_sym sym_NAME init_state)) ''CONFIG_NAME'' =
        Some ([dquote] @ quoted_value @ [dquote])
   \<and> process_sym sym_EMPTY init_state = init_state
   \<and> document [sym_ZED, sym_EMPTY, sym_FOO] = document [sym_ZED, sym_FOO]"
proof -
  have t: "stype sym_ALPHA = INT_TYPE \<or> stype sym_ALPHA = HEX \<or> stype sym_ALPHA = STRING"
      "stype sym_NAME = INT_TYPE \<or> stype sym_NAME = HEX \<or> stype sym_NAME = STRING"
      "stype sym_EMPTY = INT_TYPE \<or> stype sym_EMPTY = HEX \<or> stype sym_EMPTY = STRING"
    by (simp_all add: sym_ALPHA_def sym_NAME_def sym_EMPTY_def)
  have a: "stype sym_ALPHA = INT_TYPE" "name sym_ALPHA = ''ALPHA''" "str_value sym_ALPHA = Some ''7''"
    by (simp_all add: sym_ALPHA_def)
  have n: "stype sym_NAME = STRING" "name sym_NAME = ''NAME''" "str_value sym_NAME = Some quoted_value"
      "quoted_value \<noteq> []"
    by (simp_all add: sym_NAME_def quoted_value_def)
  have e: "stype sym_EMPTY = HEX" "str_value sym_EMPTY = Some []"
    by (simp_all add: sym_EMPTY_def)
  have k: "\<forall>t\<in>set [sym_FOO]. name sym_ALPHA \<notin> set (keys_written t)
      \<and> ''CONFIG_'' @ name sym_ALPHA \<notin> set (keys_written t)"
    by code_simp
  from value_symbol_entries [OF t(1), of init_state "[sym_ZED]" "[sym_FOO]" "''7''"] a k
  have 1: "map_of (defines_dict (process_sym sym_ALPHA init_state)) ''ALPHA'' = Some ''7''
      \<and> map_of (defines_dict (process_sym sym_ALPHA init_state)) ''CONFIG_ALPHA'' = Some ''7''
      \<and> define_line ''ALPHA'' ''7'' \<in> set (aggregated [sym_ZED, sym_ALPHA, sym_FOO])
      \<and> define_line ''CONFIG_ALPHA'' ''7'' \<in> set (aggregated [sym_ZED, sym_ALPHA, sym_FOO])"
    by simp
  from value_symbol_entries [OF t(2), of init_state "[]" "[]" quoted_value] n
  have 2: "map_of (defines_dict (process_sym sym_NAME init_state)) ''NAME'' =
        Some ([dquote] @ quoted_value @ [dquote])
      \<and> map_of (defines_dict (process_sym sym_NAME init_state)) ''CONFIG_NAME'' =
        Some ([dquote] @ quoted_value @ [dquote])"
    by simp
  from value_symbol_entries [OF t(3), of init_state "[sym_ZED]" "[sym_FOO]"] e
  have 3: "process_sym sym_EMPTY init_state = init_state
      \<and> document [sym_ZED, sym_EMPTY, sym_FOO] = document [sym_ZED, sym_FOO]"
    by simp
  show ?thesis
    using a n e 1 2 3 by simp
qed

subsection \<open>Escaping and reading back\<close>

text \<open>
  C6. \<open>cmake_escape\<close> replaces each backslash by two backslashes and each double quote
  by backslash and double quote, and leaves every other character; reading the escaped
  value back as a quoted literal gives the value, whatever follows the closing quote; so
  the literal of the assignment statement of a string symbol with value \<open>v\<close> reads
  back as \<open>v\<close>, and that statement is in the assignment-statement sequence. The
  closed theorem is the value \<^verbatim>\<open>it's "quoted"\<close>.
\<close>

theorem assignment_literal_round_trip:
  "cmake_escape v = concat (map escape_char v)
   \<and> read_quoted (cmake_escape v @ dquote # rest) = Some (v, rest)
   \<and> set_line_literal nm (set_line nm (cmake_escape v)) = Some (v, '')'')
   \<and> (name s \<noteq> [] \<and> stype s = STRING \<and> str_value s = Some v \<and> v \<noteq> [] \<longrightarrow>
        assignments [s] = [set_line (name s) (cmake_escape v)]
        \<and> set_line (name s) (cmake_escape v) \<in> set (assignments (xs @ s # ys)))"
proof -
  have "assignments [s] = [set_line (name s) (cmake_escape v)]
        \<and> set_line (name s) (cmake_escape v) \<in> set (assignments (xs @ s # ys))"
    if "name s \<noteq> []" "stype s = STRING" "str_value s = Some v" "v \<noteq> []"
  proof -
    have "assignments [s] = [set_line (name s) (cmake_escape v)]"
      using that by (simp add: assignments_def map_of_step_value(2) init_state_def)
    then show ?thesis
      using assignments_mid [of s xs ys] by auto
  qed
  then show ?thesis
    using cmake_escape_concat [of v] read_quoted_escape [of v rest]
      set_line_literal_escape [of nm v]
    by blast
qed

theorem assignment_literal_round_trip_witness:
  "name sym_NAME = ''NAME'' \<and> stype sym_NAME = STRING \<and> str_value sym_NAME = Some quoted_value
   \<and> assignments [sym_NAME] =
       [''set(CONFIG_NAME '' @ [dquote] @ ''it'' @ [CHR 0x27] @ ''s '' @ [backslash, dquote]
          @ ''quoted'' @ [backslash, dquote] @ [dquote] @ '')'']
   \<and> set_line_literal ''NAME'' (hd (assignments [sym_NAME])) = Some (quoted_value, '')'')"
proof -
  have h: "name sym_NAME \<noteq> [] \<and> stype sym_NAME = STRING \<and> str_value sym_NAME = Some quoted_value
      \<and> quoted_value \<noteq> []"
    by (simp add: sym_NAME_def quoted_value_def)
  have nm: "name sym_NAME = ''NAME''"
    by (simp add: sym_NAME_def)
  have e: "set_line ''NAME'' (cmake_escape quoted_value) =
       ''set(CONFIG_NAME '' @ [dquote] @ ''it'' @ [CHR 0x27] @ ''s '' @ [backslash, dquote]
          @ ''quoted'' @ [backslash, dquote] @ [dquote] @ '')''"
    by code_simp
  from assignment_literal_round_trip [of quoted_value "[]" "name sym_NAME" sym_NAME "[]" "[]"] h
  have "assignments [sym_NAME] = [set_line (name sym_NAME) (cmake_escape quoted_value)]
      \<and> set_line_literal (name sym_NAME) (set_line (name sym_NAME) (cmake_escape quoted_value)) =
          Some (quoted_value, '')'')"
    by blast
  then show ?thesis
    using h e by (simp add: nm)
qed

text \<open>
  C10. For a string symbol with non-empty value \<open>v\<close>, the dictionary stores \<open>v\<close>
  wrapped in double quotes under both keys; the line of the aggregated collection escapes
  the whole stored value, wrapping quotes included; read back as a quoted literal the
  line gives the name, \<open>=\<close> and \<open>v\<close> between double quotes, which is not \<open>v\<close>,
  the value read back from the assignment statement of the same symbol.
\<close>

theorem string_entry_keeps_wrapping_quotes:
  assumes "name s \<noteq> []" and "stype s = STRING" and "str_value s = Some v" and "v \<noteq> []"
  shows "map_of (defines_dict (process_sym s st)) (name s) = Some ([dquote] @ v @ [dquote])
    \<and> map_of (defines_dict (process_sym s st)) (''CONFIG_'' @ name s) = Some ([dquote] @ v @ [dquote])
    \<and> define_line nm ([dquote] @ v @ [dquote]) =
        ''    '' @ [dquote] @ cmake_escape nm @ ''='' @ [backslash, dquote] @ cmake_escape v
          @ [backslash, dquote] @ [dquote]
    \<and> define_line_literal (define_line nm ([dquote] @ v @ [dquote])) =
        Some (nm @ ''='' @ [dquote] @ v @ [dquote], [])
    \<and> assignments [s] = [set_line (name s) (cmake_escape v)]
    \<and> set_line_literal (name s) (set_line (name s) (cmake_escape v)) = Some (v, '')'')
    \<and> [dquote] @ v @ [dquote] \<noteq> v
    \<and> set (aggregated [s]) =
        {define_line (name s) ([dquote] @ v @ [dquote]),
         define_line (''CONFIG_'' @ name s) ([dquote] @ v @ [dquote])}
    \<and> ((\<forall>t\<in>set ys. name s \<notin> set (keys_written t)
           \<and> ''CONFIG_'' @ name s \<notin> set (keys_written t)) \<longrightarrow>
         define_line (name s) ([dquote] @ v @ [dquote]) \<in> set (aggregated (xs @ s # ys))
         \<and> define_line (''CONFIG_'' @ name s) ([dquote] @ v @ [dquote])
             \<in> set (aggregated (xs @ s # ys)))"
proof -
  have ty: "stype s = INT_TYPE \<or> stype s = HEX \<or> stype s = STRING"
    using assms(2) by simp
  note step = map_of_step_value [OF assms(1) ty assms(3,4)]
  note keys = keys_written_value [OF assms(1) ty assms(3,4)]
  have stored: "map_of (defines_dict (process_sym s st')) (name s) = Some ([dquote] @ v @ [dquote])
    \<and> map_of (defines_dict (process_sym s st')) (''CONFIG_'' @ name s) = Some ([dquote] @ v @ [dquote])"
    for st'
    using assms(2) by (simp add: step(1))
  have line: "define_line nm ([dquote] @ v @ [dquote]) =
        ''    '' @ [dquote] @ cmake_escape nm @ ''='' @ [backslash, dquote] @ cmake_escape v
          @ [backslash, dquote] @ [dquote]"
    by (simp add: define_line_def cmake_escape_append cmake_escape_Cons escape_char_def)
  have asg: "assignments [s] = [set_line (name s) (cmake_escape v)]"
    by (simp add: assignments_def step(2) init_state_def)
  have neq: "[dquote] @ v @ [dquote] \<noteq> v"
    by (auto dest: arg_cong [where f = length])
  have agg: "set (aggregated [s]) =
        {define_line (name s) ([dquote] @ v @ [dquote]),
         define_line (''CONFIG_'' @ name s) ([dquote] @ v @ [dquote])}"
    using keys assms(2)
    by (simp add: aggregated_def defines_of_def set_define_lines keys_written_def step(1)
          flip: set_map)
  have mid: "define_line (name s) ([dquote] @ v @ [dquote]) \<in> set (aggregated (xs @ s # ys))
         \<and> define_line (''CONFIG_'' @ name s) ([dquote] @ v @ [dquote])
             \<in> set (aggregated (xs @ s # ys))"
    if "\<forall>t\<in>set ys. name s \<notin> set (keys_written t)
           \<and> ''CONFIG_'' @ name s \<notin> set (keys_written t)"
  proof -
    have "map_of (defines_of (xs @ s # ys)) (name s) = Some ([dquote] @ v @ [dquote])
      \<and> map_of (defines_of (xs @ s # ys)) (''CONFIG_'' @ name s) = Some ([dquote] @ v @ [dquote])"
      using that stored [of "process_syms xs init_state"] by (simp add: map_of_defines_of_mid)
    then show ?thesis
      by (auto simp add: aggregated_def intro: define_line_mem)
  qed
  show ?thesis
    using stored [of st] line define_line_literal_escape [of nm "[dquote] @ v @ [dquote]"]
      asg set_line_literal_escape [of "name s" v] neq agg mid
    by blast
qed

theorem string_entry_keeps_wrapping_quotes_witness:
  "name sym_PATH = ''PATH'' \<and> stype sym_PATH = STRING
   \<and> str_value sym_PATH = Some (''C:'' @ [backslash] @ ''tmp '' @ [dquote] @ ''x'' @ [backslash, dquote])
   \<and> aggregated [sym_PATH] =
       [''    '' @ [dquote] @ ''CONFIG_PATH='' @ [backslash, dquote] @ ''C:'' @ [backslash, backslash]
          @ ''tmp '' @ [backslash, dquote] @ ''x'' @ [backslash, backslash, backslash, dquote]
          @ [backslash, dquote] @ [dquote],
        ''    '' @ [dquote] @ ''PATH='' @ [backslash, dquote] @ ''C:'' @ [backslash, backslash]
          @ ''tmp '' @ [backslash, dquote] @ ''x'' @ [backslash, backslash, backslash, dquote]
          @ [backslash, dquote] @ [dquote]]
   \<and> define_line_literal (aggregated [sym_PATH] ! 1) =
       Some (''PATH='' @ [dquote] @ ''C:'' @ [backslash] @ ''tmp '' @ [dquote] @ ''x''
               @ [backslash, dquote] @ [dquote], [])
   \<and> set_line_literal ''PATH'' (hd (assignments [sym_PATH])) =
       Some (''C:'' @ [backslash] @ ''tmp '' @ [dquote] @ ''x'' @ [backslash, dquote], '')'')"
proof -
  let ?v = "''C:'' @ [backslash] @ ''tmp '' @ [dquote] @ ''x'' @ [backslash, dquote]"
  have h: "name sym_PATH \<noteq> []" "stype sym_PATH = STRING" "str_value sym_PATH = Some ?v" "?v \<noteq> []"
    and nm: "name sym_PATH = ''PATH''"
    by (simp_all add: sym_PATH_def)
  have agg: "aggregated [sym_PATH] =
       [''    '' @ [dquote] @ ''CONFIG_PATH='' @ [backslash, dquote] @ ''C:'' @ [backslash, backslash]
          @ ''tmp '' @ [backslash, dquote] @ ''x'' @ [backslash, backslash, backslash, dquote]
          @ [backslash, dquote] @ [dquote],
        ''    '' @ [dquote] @ ''PATH='' @ [backslash, dquote] @ ''C:'' @ [backslash, backslash]
          @ ''tmp '' @ [backslash, dquote] @ ''x'' @ [backslash, backslash, backslash, dquote]
          @ [backslash, dquote] @ [dquote]]"
    by code_simp
  have ln: "aggregated [sym_PATH] ! 1 = define_line ''PATH'' ([dquote] @ ?v @ [dquote])"
    by code_simp
  note th = string_entry_keeps_wrapping_quotes [OF h, of init_state "''PATH''" "[]" "[]"]
  from th have lit: "define_line_literal (aggregated [sym_PATH] ! 1) =
        Some (''PATH'' @ ''='' @ [dquote] @ ?v @ [dquote], [])"
    unfolding ln by blast
  from th have "assignments [sym_PATH] = [set_line (name sym_PATH) (cmake_escape ?v)]
      \<and> set_line_literal (name sym_PATH) (set_line (name sym_PATH) (cmake_escape ?v)) = Some (?v, '')'')"
    by blast
  then have asg: "set_line_literal ''PATH'' (hd (assignments [sym_PATH])) = Some (?v, '')'')"
    by (simp add: nm)
  show ?thesis
    using h(2,3) nm agg lit asg by simp
qed

subsection \<open>Order of the output\<close>

text \<open>
  C5. The names of the aggregated collection are strictly increasing in the
  lexicographic order of strings (characters by code), they are the keys of the
  dictionary, and each line is built from its name; two schemas with the same symbols in
  any order give the same sequence of names. The assignment-statement sequence follows
  the schema: the sequence of a concatenation is the concatenation of the sequences, so
  it is the concatenation, in schema order, of what each symbol contributes, which is
  nothing or one statement for the symbol's name.
\<close>

theorem aggregated_sorted_assignments_in_order:
  "sorted_wrt (<) (sorted_names (defines_of syms))
   \<and> set (sorted_names (defines_of syms)) = fst ` set (defines_of syms)
   \<and> aggregated syms =
       map (\<lambda>nm. define_line nm (the (map_of (defines_of syms) nm))) (sorted_names (defines_of syms))
   \<and> (set syms' = set syms \<longrightarrow> sorted_names (defines_of syms') = sorted_names (defines_of syms))
   \<and> assignments (xs @ ys) = assignments xs @ assignments ys
   \<and> assignments syms = concat (map (\<lambda>s. assignments [s]) syms)
   \<and> (assignments [s] = [] \<or> (\<exists>v. assignments [s] = [set_line (name s) v]))"
proof -
  have "sorted_wrt (<) (sorted_names (defines_of syms))"
    by (rule sorted_names_strict) (rule distinct_defines_of)
  moreover have "set (sorted_names (defines_of syms)) = fst ` set (defines_of syms)"
    by (simp add: sorted_names_def)
  moreover have "aggregated syms =
       map (\<lambda>nm. define_line nm (the (map_of (defines_of syms) nm))) (sorted_names (defines_of syms))"
    by (simp add: aggregated_def define_lines_def)
  moreover have "set syms' = set syms \<longrightarrow>
      sorted_names (defines_of syms') = sorted_names (defines_of syms)"
    by (simp add: sorted_names_keys distinct_defines_of keys_defines_of)
  ultimately show ?thesis
    using assignments_append [of xs ys] assignments_concat [of syms] assignments_single [of s]
    by blast
qed

theorem aggregated_sorted_assignments_in_order_witness:
  "sorted_names (defines_of [sym_ZED, sym_ALPHA]) = [''ALPHA'', ''CONFIG_ALPHA'', ''CONFIG_ZED'', ''ZED'']
   \<and> sorted_names (defines_of [sym_ALPHA, sym_ZED]) = [''ALPHA'', ''CONFIG_ALPHA'', ''CONFIG_ZED'', ''ZED'']
   \<and> assignments [sym_ZED, sym_ALPHA] = [set_line ''ZED'' ''y'', set_line ''ALPHA'' ''7'']
   \<and> assignments [sym_ALPHA, sym_ZED] = [set_line ''ALPHA'' ''7'', set_line ''ZED'' ''y'']"
proof -
  have e: "set [sym_ALPHA, sym_ZED] = set [sym_ZED, sym_ALPHA]" by auto
  have n: "sorted_names (defines_of [sym_ZED, sym_ALPHA]) =
      [''ALPHA'', ''CONFIG_ALPHA'', ''CONFIG_ZED'', ''ZED'']"
    by code_simp
  have z: "assignments [sym_ZED] = [set_line ''ZED'' ''y'']"
    and a: "assignments [sym_ALPHA] = [set_line ''ALPHA'' ''7'']"
    by code_simp+
  from aggregated_sorted_assignments_in_order
         [of "[sym_ZED, sym_ALPHA]" "[sym_ALPHA, sym_ZED]" "[sym_ZED]" "[sym_ALPHA]" sym_ZED]
       aggregated_sorted_assignments_in_order
         [of "[sym_ALPHA, sym_ZED]" "[sym_ZED, sym_ALPHA]" "[sym_ALPHA]" "[sym_ZED]" sym_ZED]
  show ?thesis
    using e n z a by simp
qed

end
